theory Spec2Isabelle
  imports Complex_Main
begin

section \<open>Data model of plan.h\<close>

text \<open>
  The C++ \<^verbatim>\<open>double\<close> is read as a real number: rounding, infinities and NaN are not
  part of this development. \<^verbatim>\<open>size_t\<close> indices are natural numbers; the only subtraction
  on them in plan.h (\<^verbatim>\<open>traj.size()-1\<close>) is guarded by \<^verbatim>\<open>seg_id < traj.size()\<close>, so it
  never wraps.

  The shapes of \<^verbatim>\<open>Waypoint\<close>, \<^verbatim>\<open>Segment\<close> and \<^verbatim>\<open>UAV\<close> are the ones the binding file
  python_interface.cpp exposes; \<^verbatim>\<open>Point\<close>, \<^verbatim>\<open>Cell\<close>, \<^verbatim>\<open>TimeWindow\<close>, \<^verbatim>\<open>PointTime\<close> and
  \<^verbatim>\<open>PointTimeWindow\<close> are read off the aggregate initialisations in plan.h.
\<close>

record Point =
  pt_x :: real
  pt_y :: real

record Waypoint =
  wp_x :: real
  wp_y :: real
  wp_dir :: real

record Segment =
  seg_start :: Waypoint
  seg_end :: Waypoint
  seg_length :: real

record UAV =
  rho :: real
  speed :: real

record Cell =
  cell_x :: nat
  cell_y :: nat

record TimeWindow =
  tw_start :: real
  tw_end :: real

record PointTime =
  pt :: Point
  time :: real

record PointTimeWindow =
  ptw_pt :: Point
  ptw_tw :: TimeWindow

record TrajectoryConfig =
  uav :: UAV
  start_time :: real
  max_flight_time :: real

text \<open>
  Modelled from the spec: the class \<^verbatim>\<open>Trajectory\<close> (trajectory.h) is not among the sources.
  The spec describes it as an ordered sequence of segments for one vehicle, built from a
  configuration, with a modifiable boundary: segments that begin before a frozen cutoff time
  are not eligible for edit. plan.h reads its members \<^verbatim>\<open>conf\<close> and \<^verbatim>\<open>traj\<close> (a vector of
  segments). \<open>frozen_before\<close> is the cutoff time, \<open>None\<close> while nothing is frozen.
\<close>

record Trajectory =
  conf :: TrajectoryConfig
  traj :: "Segment list"
  frozen_before :: "real option"

text \<open>
  The raster type (\<^verbatim>\<open>fire->ignitions\<close>, \<^verbatim>\<open>fire->traversal_end\<close>) is declared outside
  plan.h. plan.h reads its dimensions and its value at a cell; the value lookup is kept as a
  total function of the cell.
\<close>

record Raster =
  x_width :: nat
  y_height :: nat
  cell_value :: "Cell \<Rightarrow> real"

record FireData =
  ignitions :: Raster
  traversal_end :: Raster

record Plan =
  time_window :: TimeWindow
  trajectories :: "Trajectory list"
  fire :: FireData
  possible_observations :: "PointTimeWindow list"

text \<open>
  The functions that plan.h calls and that are declared in headers outside the sources are
  parameters of the model, collected in one record:
  \<^item> \<^verbatim>\<open>UAV::visibilty_center(seg)\<close>, the sensor-footprint centre of a segment;
  \<^item> \<^verbatim>\<open>Point::dist\<close>;
  \<^item> \<^verbatim>\<open>Trajectory::start_time(i)\<close>, the scheduled start of segment \<open>i\<close>, and
    \<^verbatim>\<open>Trajectory::duration()\<close>, both derived from the configuration and the segment
    sequence;
  \<^item> \<^verbatim>\<open>FireData::project_on_firefront(seg, uav, t)\<close>, the optional projection of a segment
    on the front at time \<open>t\<close>;
  \<^item> the raster's \<^verbatim>\<open>as_point(cell)\<close> and \<^verbatim>\<open>as_cell(waypoint)\<close>;
  \<^item> the constructor \<^verbatim>\<open>Trajectory(conf)\<close>.
\<close>

record externals =
  visibilty_center :: "UAV \<Rightarrow> Segment \<Rightarrow> Waypoint"
  point_dist :: "Point \<Rightarrow> Point \<Rightarrow> real"
  traj_start_time :: "Trajectory \<Rightarrow> nat \<Rightarrow> real"
  traj_duration :: "Trajectory \<Rightarrow> real"
  fire_project_on_firefront :: "FireData \<Rightarrow> Segment \<Rightarrow> UAV \<Rightarrow> real \<Rightarrow> Segment option"
  as_point :: "Raster \<Rightarrow> Cell \<Rightarrow> Point"
  as_cell :: "Raster \<Rightarrow> Waypoint \<Rightarrow> Cell"
  new_trajectory :: "TrajectoryConfig \<Rightarrow> Trajectory"

text \<open>
  The macro \<^verbatim>\<open>ASSERT\<close> is defined outside the sources. A failed assertion ends the call
  and leaves no result; it is the error \<open>AssertionFailed\<close>, carrying the text of the condition.
  The other two errors are the refusals of a trajectory edit (spec 4.2, 7 and 8): the edit
  touches a frozen segment, or it would exceed the flight-time budget.
\<close>

datatype error = AssertionFailed string | SegmentFrozen | BudgetExceeded

text \<open>
  Modelled from the spec: \<^verbatim>\<open>Waypoint::as_point()\<close> is declared outside the sources; it is
  taken to be the 2D position of the waypoint, the conversion \<^verbatim>\<open>Point{wp.x, wp.y}\<close> that
  \<^verbatim>\<open>Plan::observations\<close> writes out itself.
\<close>

definition Waypoint_as_point :: "Waypoint \<Rightarrow> Point" where
  "Waypoint_as_point wp = \<lparr>pt_x = wp_x wp, pt_y = wp_y wp\<rparr>"

text \<open>
  Modelled from the spec: the members of \<^verbatim>\<open>Trajectory\<close> below are declared outside the
  sources.
  \<^item> \<^verbatim>\<open>size()\<close> is the number of segments.
  \<^item> \<^verbatim>\<open>freeze_before(t)\<close> makes the segments that start before \<open>t\<close> non-modifiable, and
    \<^verbatim>\<open>can_modify(i)\<close> tells whether an edit at index \<open>i\<close> is allowed: it is not when the
    segment at that index starts before the cutoff.
  \<^item> \<^verbatim>\<open>insert_segment\<close>, \<^verbatim>\<open>erase_segment\<close> and \<^verbatim>\<open>replace_segment\<close> edit the sequence by
    index. Each of them refuses a frozen index, recomputes the start times (they are derived
    from the sequence) and re-validates the flight-time budget; an edit that would exceed
    \<open>max_flight_time\<close> fails and leaves the trajectory as it was.
  plan.h calls the edits as \<^verbatim>\<open>void\<close> statements, always inside the index range, and never
  looks at an outcome: a refused edit is a failure that leaves the calling function, like a
  failed assertion.
\<close>

definition Trajectory_size :: "Trajectory \<Rightarrow> nat" where
  "Trajectory_size tr = length (traj tr)"

definition Trajectory_freeze_before :: "Trajectory \<Rightarrow> real \<Rightarrow> Trajectory" where
  "Trajectory_freeze_before tr t =
     tr\<lparr>frozen_before := (case frozen_before tr of None \<Rightarrow> Some t | Some t' \<Rightarrow> Some (max t t'))\<rparr>"

definition Trajectory_can_modify :: "externals \<Rightarrow> Trajectory \<Rightarrow> nat \<Rightarrow> bool" where
  "Trajectory_can_modify E tr i =
     (case frozen_before tr of
        None \<Rightarrow> True
      | Some t \<Rightarrow> \<not> (i < length (traj tr) \<and> traj_start_time E tr i < t))"

text \<open>The part the three edits share: the edit at an index that leaves the given segments.\<close>

definition Trajectory_edit ::
  "externals \<Rightarrow> Trajectory \<Rightarrow> nat \<Rightarrow> Segment list \<Rightarrow> error + Trajectory" where
  "Trajectory_edit E tr at_index segs =
     (if \<not> Trajectory_can_modify E tr at_index then Inl SegmentFrozen
      else if traj_duration E (tr\<lparr>traj := segs\<rparr>) > max_flight_time (conf tr)
      then Inl BudgetExceeded
      else Inr (tr\<lparr>traj := segs\<rparr>))"

definition Trajectory_insert_segment ::
  "externals \<Rightarrow> Trajectory \<Rightarrow> Segment \<Rightarrow> nat \<Rightarrow> error + Trajectory" where
  "Trajectory_insert_segment E tr seg at_index =
     Trajectory_edit E tr at_index (take at_index (traj tr) @ seg # drop at_index (traj tr))"

definition Trajectory_erase_segment :: "externals \<Rightarrow> Trajectory \<Rightarrow> nat \<Rightarrow> error + Trajectory" where
  "Trajectory_erase_segment E tr at_index =
     Trajectory_edit E tr at_index (take at_index (traj tr) @ drop (Suc at_index) (traj tr))"

definition Trajectory_replace_segment ::
  "externals \<Rightarrow> Trajectory \<Rightarrow> nat \<Rightarrow> Segment \<Rightarrow> error + Trajectory" where
  "Trajectory_replace_segment E tr at_index seg =
     Trajectory_edit E tr at_index ((traj tr)[at_index := seg])"

section \<open>The repair pass: Plan::project_on_firefront\<close>

text \<open>
  The footprint centre of a segment of a trajectory, as a point:
  \<^verbatim>\<open>traj.conf.uav.visibilty_center(seg).as_point()\<close>.
\<close>

definition footprint_center :: "externals \<Rightarrow> Trajectory \<Rightarrow> Segment \<Rightarrow> Point" where
  "footprint_center E tr seg = Waypoint_as_point (visibilty_center E (uav (conf tr)) seg)"

text \<open>Lines 148-151: the distances of the projected centre to the neighbours.\<close>

definition prev_point_dist :: "externals \<Rightarrow> Trajectory \<Rightarrow> nat \<Rightarrow> Segment \<Rightarrow> real" where
  "prev_point_dist E tr seg_id projected =
     (if seg_id = 0 then 999999
      else point_dist E (footprint_center E tr projected)
             (footprint_center E tr (traj tr ! (seg_id - 1))))"

definition next_point_dist :: "externals \<Rightarrow> Trajectory \<Rightarrow> nat \<Rightarrow> Segment \<Rightarrow> real" where
  "next_point_dist E tr seg_id projected =
     (if seg_id \<ge> Trajectory_size tr - 1 then 999999
      else point_dist E (footprint_center E tr projected)
             (footprint_center E tr (traj tr ! (seg_id + 1))))"

text \<open>
  Lines 140-165: one turn of the \<^verbatim>\<open>while\<close> loop, for \<open>seg_id < traj.size()\<close>. It returns the
  trajectory and the index the next turn starts from, or the failure of a trajectory edit.
  The two distances are computed before the segment is erased (lines 148-152).
\<close>

definition repair_body ::
  "externals \<Rightarrow> FireData \<Rightarrow> Trajectory \<Rightarrow> nat \<Rightarrow> error + Trajectory \<times> nat" where
  "repair_body E fd tr seg_id =
     (case fire_project_on_firefront E fd (traj tr ! seg_id) (uav (conf tr))
             (traj_start_time E tr seg_id) of
        Some projected \<Rightarrow>
          if projected \<noteq> traj tr ! seg_id then
            (case Trajectory_erase_segment E tr seg_id of
               Inl e \<Rightarrow> Inl e
             | Inr erased \<Rightarrow>
                 if prev_point_dist E tr seg_id projected > 49 \<and>
                    next_point_dist E tr seg_id projected > 49
                 then (case Trajectory_insert_segment E erased projected seg_id of
                         Inl e \<Rightarrow> Inl e
                       | Inr inserted \<Rightarrow> Inr (inserted, seg_id + 1))
                 else Inr (erased, seg_id))
          else Inr (tr, seg_id + 1)
      | None \<Rightarrow>
          (case Trajectory_erase_segment E tr seg_id of
             Inl e \<Rightarrow> Inl e
           | Inr erased \<Rightarrow> Inr (erased, seg_id)))"

text \<open>Lines 138-166: the \<^verbatim>\<open>while\<close> loop over one trajectory.\<close>

function repair_loop :: "externals \<Rightarrow> FireData \<Rightarrow> Trajectory \<Rightarrow> nat \<Rightarrow> error + Trajectory" where
  "repair_loop E fd tr seg_id =
     (if seg_id < Trajectory_size tr
      then (case repair_body E fd tr seg_id of
              Inl e \<Rightarrow> Inl e
            | Inr turn \<Rightarrow> repair_loop E fd (fst turn) (snd turn))
      else Inr tr)"
  by pat_completeness auto
termination
proof (relation "measure (\<lambda>(E, fd, tr, seg_id). Trajectory_size tr - seg_id)")
  show "wf (measure (\<lambda>(E, fd, tr, seg_id). Trajectory_size tr - seg_id))"
    by simp
next
  fix E :: externals and fd :: FireData and tr :: Trajectory and seg_id :: nat
    and turn :: "Trajectory \<times> nat"
  assume "seg_id < Trajectory_size tr" and "repair_body E fd tr seg_id = Inr turn"
  then show "((E, fd, fst turn, snd turn), (E, fd, tr, seg_id))
             \<in> measure (\<lambda>(E, fd, tr, seg_id). Trajectory_size tr - seg_id)"
    by (auto simp: repair_body_def Trajectory_size_def Trajectory_insert_segment_def
        Trajectory_erase_segment_def Trajectory_edit_def
        split: option.splits if_splits sum.splits)
qed

declare repair_loop.simps [simp del]

text \<open>
  Lines 137-167: the loop over the trajectories, in order. A failure in one trajectory leaves
  the function, so the trajectories after it are not visited.
\<close>

fun repair_trajectories ::
  "externals \<Rightarrow> FireData \<Rightarrow> Trajectory list \<Rightarrow> error + Trajectory list" where
  "repair_trajectories E fd [] = Inr []"
| "repair_trajectories E fd (tr # trs) =
     (case repair_loop E fd tr 0 of
        Inl e \<Rightarrow> Inl e
      | Inr repaired \<Rightarrow>
          (case repair_trajectories E fd trs of
             Inl e \<Rightarrow> Inl e
           | Inr rest \<Rightarrow> Inr (repaired # rest)))"

text \<open>Lines 136-168.\<close>

definition project_on_firefront :: "externals \<Rightarrow> Plan \<Rightarrow> error + Plan" where
  "project_on_firefront E p =
     (case repair_trajectories E (fire p) (trajectories p) of
        Inl e \<Rightarrow> Inl e
      | Inr trs \<Rightarrow> Inr (p\<lparr>trajectories := trs\<rparr>))"

section \<open>Realized observations and cost\<close>

text \<open>
  Lines 98-106: the body of the inner loop of \<^verbatim>\<open>Plan::observations\<close>, for
  \<open>seg_id < traj.size()\<close>; \<open>obs\<close> is the vector built so far.
\<close>

definition observations_body ::
  "externals \<Rightarrow> FireData \<Rightarrow> Trajectory \<Rightarrow> nat \<Rightarrow> PointTime list \<Rightarrow> PointTime list" where
  "observations_body E fd tr seg_id obs =
     (let wp = visibilty_center E (uav (conf tr)) (traj tr ! seg_id);
          obs_time = traj_start_time E tr seg_id;
          c = as_cell E (ignitions fd) wp
      in if cell_value (ignitions fd) c \<le> obs_time \<and> obs_time \<le> cell_value (traversal_end fd) c
         then obs @ [\<lparr>pt = \<lparr>pt_x = wp_x wp, pt_y = wp_y wp\<rparr>, time = traj_start_time E tr seg_id\<rparr>]
         else obs)"

function observations_loop ::
  "externals \<Rightarrow> FireData \<Rightarrow> Trajectory \<Rightarrow> nat \<Rightarrow> PointTime list \<Rightarrow> PointTime list" where
  "observations_loop E fd tr seg_id obs =
     (if seg_id < Trajectory_size tr
      then observations_loop E fd tr (seg_id + 1) (observations_body E fd tr seg_id obs)
      else obs)"
  by pat_completeness auto
termination
  by (relation "measure (\<lambda>(E, fd, tr, seg_id, obs). Trajectory_size tr - seg_id)") auto

declare observations_loop.simps [simp del]

text \<open>Lines 94-110: the outer loop goes through the trajectories in order.\<close>

definition observations :: "externals \<Rightarrow> Plan \<Rightarrow> PointTime list" where
  "observations E p =
     fold (\<lambda>tr obs. observations_loop E (fire p) tr 0 obs) (trajectories p) []"

text \<open>Lines 174 and 178.\<close>

definition MAX_INFORMATIVE_DISTANCE :: real where
  "MAX_INFORMATIVE_DISTANCE = 500"

definition REDUNDANT_OBS_DIST :: real where
  "REDUNDANT_OBS_DIST = 0"

text \<open>Lines 64-68: the distance to the closest realized observation, starting from the cap.\<close>

definition min_dist :: "externals \<Rightarrow> PointTime list \<Rightarrow> PointTimeWindow \<Rightarrow> real" where
  "min_dist E done_obs possible_obs =
     fold (\<lambda>obs m. min m (point_dist E (ptw_pt possible_obs) (pt obs)))
       done_obs MAX_INFORMATIVE_DISTANCE"

text \<open>Line 73.\<close>

definition self_cost :: "externals \<Rightarrow> PointTime list \<Rightarrow> PointTimeWindow \<Rightarrow> real" where
  "self_cost E done_obs possible_obs =
     (max (min_dist E done_obs possible_obs) REDUNDANT_OBS_DIST - REDUNDANT_OBS_DIST)
       / (MAX_INFORMATIVE_DISTANCE - REDUNDANT_OBS_DIST)"

text \<open>Lines 60-77.\<close>

definition cost :: "externals \<Rightarrow> Plan \<Rightarrow> real" where
  "cost E p =
     fold (\<lambda>possible_obs global_cost. global_cost + self_cost E (observations E p) possible_obs)
       (possible_observations p) 0"

section \<open>Construction of a Plan\<close>

text \<open>Lines 22-26: one trajectory per configuration, each under the assertion of line 23.\<close>

fun Plan_trajectories ::
  "externals \<Rightarrow> TimeWindow \<Rightarrow> TrajectoryConfig list \<Rightarrow> Trajectory list \<Rightarrow> error + Trajectory list" where
  "Plan_trajectories E tw [] trs = Inr trs"
| "Plan_trajectories E tw (c # traj_confs) trs =
     (if start_time c \<ge> tw_start tw \<and> start_time c \<le> tw_end tw
      then Plan_trajectories E tw traj_confs (trs @ [new_trajectory E c])
      else Inl (AssertionFailed
        ''conf.start_time >= time_window.start && conf.start_time <= time_window.end''))"

text \<open>Lines 30-35: the body of the inner loop over the cells of column \<open>x\<close>.\<close>

definition Plan_cell ::
  "externals \<Rightarrow> FireData \<Rightarrow> TimeWindow \<Rightarrow> nat \<Rightarrow> nat \<Rightarrow> PointTimeWindow list \<Rightarrow> PointTimeWindow list" where
  "Plan_cell E fd tw x y pos =
     (let t = cell_value (ignitions fd) \<lparr>cell_x = x, cell_y = y\<rparr>
      in if tw_start tw \<le> t \<and> t \<le> tw_end tw
         then pos @ [\<lparr>ptw_pt = as_point E (ignitions fd) \<lparr>cell_x = x, cell_y = y\<rparr>,
                      ptw_tw = \<lparr>tw_start = cell_value (ignitions fd) \<lparr>cell_x = x, cell_y = y\<rparr>,
                                tw_end = cell_value (traversal_end fd) \<lparr>cell_x = x, cell_y = y\<rparr>\<rparr>\<rparr>]
         else pos)"

function Plan_cells_y ::
  "externals \<Rightarrow> FireData \<Rightarrow> TimeWindow \<Rightarrow> nat \<Rightarrow> nat \<Rightarrow> PointTimeWindow list \<Rightarrow> PointTimeWindow list" where
  "Plan_cells_y E fd tw x y pos =
     (if y < y_height (ignitions fd)
      then Plan_cells_y E fd tw x (y + 1) (Plan_cell E fd tw x y pos)
      else pos)"
  by pat_completeness auto
termination
  by (relation "measure (\<lambda>(E, fd, tw, x, y, pos). y_height (ignitions fd) - y)") auto

declare Plan_cells_y.simps [simp del]

function Plan_cells_x ::
  "externals \<Rightarrow> FireData \<Rightarrow> TimeWindow \<Rightarrow> nat \<Rightarrow> PointTimeWindow list \<Rightarrow> PointTimeWindow list" where
  "Plan_cells_x E fd tw x pos =
     (if x < x_width (ignitions fd)
      then Plan_cells_x E fd tw (x + 1) (Plan_cells_y E fd tw x 0 pos)
      else pos)"
  by pat_completeness auto
termination
  by (relation "measure (\<lambda>(E, fd, tw, x, pos). x_width (ignitions fd) - x)") auto

declare Plan_cells_x.simps [simp del]

text \<open>Lines 19-38: the constructor; a failed assertion leaves no Plan.\<close>

definition Plan_new ::
  "externals \<Rightarrow> TrajectoryConfig list \<Rightarrow> FireData \<Rightarrow> TimeWindow \<Rightarrow> error + Plan" where
  "Plan_new E traj_confs fire_data tw =
     (case Plan_trajectories E tw traj_confs [] of
        Inl e \<Rightarrow> Inl e
      | Inr trs \<Rightarrow>
          Inr \<lparr>time_window = tw, trajectories = trs, fire = fire_data,
               possible_observations = Plan_cells_x E fire_data tw 0 []\<rparr>)"

section \<open>Edit operations of a Plan\<close>

text \<open>Lines 113-118.\<close>

definition insert_segment :: "externals \<Rightarrow> Plan \<Rightarrow> nat \<Rightarrow> Segment \<Rightarrow> nat \<Rightarrow> error + Plan" where
  "insert_segment E p traj_id seg insert_loc =
     (if \<not> traj_id < length (trajectories p)
      then Inl (AssertionFailed ''traj_id < trajectories.size()'')
      else if \<not> insert_loc \<le> length (traj (trajectories p ! traj_id))
      then Inl (AssertionFailed ''insert_loc <= trajectories[traj_id].traj.size()'')
      else (case Trajectory_insert_segment E (trajectories p ! traj_id) seg insert_loc of
              Inl e \<Rightarrow> Inl e
            | Inr edited \<Rightarrow>
                project_on_firefront E
                  (p\<lparr>trajectories := (trajectories p)[traj_id := edited]\<rparr>)))"

text \<open>Lines 120-126.\<close>

definition erase_segment :: "externals \<Rightarrow> Plan \<Rightarrow> nat \<Rightarrow> nat \<Rightarrow> error + Plan" where
  "erase_segment E p traj_id at_index =
     (if \<not> traj_id < length (trajectories p)
      then Inl (AssertionFailed ''traj_id < trajectories.size()'')
      else if \<not> at_index < length (traj (trajectories p ! traj_id))
      then Inl (AssertionFailed ''at_index < trajectories[traj_id].traj.size()'')
      else (case Trajectory_erase_segment E (trajectories p ! traj_id) at_index of
              Inl e \<Rightarrow> Inl e
            | Inr edited \<Rightarrow>
                project_on_firefront E
                  (p\<lparr>trajectories := (trajectories p)[traj_id := edited]\<rparr>)))"

text \<open>Lines 128-134.\<close>

definition replace_segment :: "externals \<Rightarrow> Plan \<Rightarrow> nat \<Rightarrow> nat \<Rightarrow> Segment \<Rightarrow> error + Plan" where
  "replace_segment E p traj_id at_index by_segment =
     (if \<not> traj_id < length (trajectories p)
      then Inl (AssertionFailed ''traj_id < trajectories.size()'')
      else if \<not> at_index \<le> length (traj (trajectories p ! traj_id))
      then Inl (AssertionFailed ''at_index <= trajectories[traj_id].traj.size()'')
      else (case erase_segment E p traj_id at_index of
              Inl e \<Rightarrow> Inl e
            | Inr p1 \<Rightarrow>
                (case insert_segment E p1 traj_id by_segment at_index of
                   Inl e \<Rightarrow> Inl e
                 | Inr p2 \<Rightarrow> project_on_firefront E p2)))"

section \<open>Notions used in the statements\<close>

text \<open>
  The repair pass leaves a segment alone exactly when the segment is its own projection at
  its scheduled start time (the \<^verbatim>\<open>else\<close> branch of line 158).
\<close>

definition on_front :: "externals \<Rightarrow> FireData \<Rightarrow> Trajectory \<Rightarrow> nat \<Rightarrow> bool" where
  "on_front E fd tr i \<longleftrightarrow>
     fire_project_on_firefront E fd (traj tr ! i) (uav (conf tr)) (traj_start_time E tr i)
       = Some (traj tr ! i)"

text \<open>
  The reading of the spec for \<^verbatim>\<open>Plan::replace_segment\<close>: the replacement on the addressed
  trajectory, then one repair pass over all trajectories.
\<close>

definition replace_then_repair ::
  "externals \<Rightarrow> Plan \<Rightarrow> nat \<Rightarrow> nat \<Rightarrow> Segment \<Rightarrow> error + Plan" where
  "replace_then_repair E p traj_id at_index by_segment =
     (case Trajectory_replace_segment E (trajectories p ! traj_id) at_index by_segment of
        Inl e \<Rightarrow> Inl e
      | Inr edited \<Rightarrow>
          project_on_firefront E (p\<lparr>trajectories := (trajectories p)[traj_id := edited]\<rparr>))"

text \<open>The cells of a raster in the order of the loops of lines 28-29: \<open>x\<close> outside, \<open>y\<close> inside.\<close>

definition raster_cells :: "Raster \<Rightarrow> Cell list" where
  "raster_cells r =
     concat (map (\<lambda>x. map (\<lambda>y. \<lparr>cell_x = x, cell_y = y\<rparr>) [0..<y_height r]) [0..<x_width r])"

text \<open>Lines 31-34: the test under which a cell is pushed, and the entry pushed for it.\<close>

definition cell_entry :: "externals \<Rightarrow> FireData \<Rightarrow> Cell \<Rightarrow> PointTimeWindow" where
  "cell_entry E fd c =
     \<lparr>ptw_pt = as_point E (ignitions fd) c,
      ptw_tw = \<lparr>tw_start = cell_value (ignitions fd) c, tw_end = cell_value (traversal_end fd) c\<rparr>\<rparr>"

definition cell_in_window :: "FireData \<Rightarrow> TimeWindow \<Rightarrow> Cell \<Rightarrow> bool" where
  "cell_in_window fd tw c \<longleftrightarrow>
     tw_start tw \<le> cell_value (ignitions fd) c \<and> cell_value (ignitions fd) c \<le> tw_end tw"

section \<open>Reading the configuration: plan_vns and replan_vns\<close>

text \<open>
  planning_py.cpp, lines 78-89 and 122-133. The configuration arrives as text and is parsed by
  the JSON library; the model starts from the parsed document. An object is a list of
  key-value pairs with distinct keys.
\<close>

datatype json =
    JNull
  | JBool bool
  | JNumber real
  | JString string
  | JArray "json list"
  | JObject "(string \<times> json) list"














section \<open>A small world for concrete runs\<close>

text \<open>
  A vehicle that observes where it is and flies at unit speed, over a front that moves along
  the x axis: the cell at column \<open>x\<close> ignites at time \<open>2 x\<close>, so at time \<open>t\<close> the front is at
  \<open>x = t / 2\<close>. The projection slides a segment along x onto the front, and yields nothing when
  the front is outside the raster. The start time of a segment is the start time of the
  configuration plus the time flown before it, and the duration of a trajectory is the time
  flown from its first segment to the end of its last. All segments of the runs below lie
  on the x axis, where \<open>axis_dist\<close> is the Euclidean distance.
\<close>

definition axis_dist :: "Point \<Rightarrow> Point \<Rightarrow> real" where
  "axis_dist a b = \<bar>pt_x a - pt_x b\<bar> + \<bar>pt_y a - pt_y b\<bar>"

definition shift_segment :: "Segment \<Rightarrow> real \<Rightarrow> Segment" where
  "shift_segment seg dx =
     seg\<lparr>seg_start := (seg_start seg)\<lparr>wp_x := wp_x (seg_start seg) + dx\<rparr>,
         seg_end := (seg_end seg)\<lparr>wp_x := wp_x (seg_end seg) + dx\<rparr>\<rparr>"

fun start_times :: "real \<Rightarrow> Segment list \<Rightarrow> real list" where
  "start_times t [] = []"
| "start_times t [s] = [t]"
| "start_times t (s # s' # rest) =
     t # start_times (t + seg_length s
           + axis_dist (Waypoint_as_point (seg_end s)) (Waypoint_as_point (seg_start s')))
         (s' # rest)"

fun flight_time :: "Segment list \<Rightarrow> real" where
  "flight_time [] = 0"
| "flight_time [s] = seg_length s"
| "flight_time (s # s' # rest) =
     seg_length s + axis_dist (Waypoint_as_point (seg_end s)) (Waypoint_as_point (seg_start s'))
       + flight_time (s' # rest)"

definition line_world :: externals where
  "line_world =
     \<lparr>visibilty_center = (\<lambda>u seg. seg_start seg),
      point_dist = axis_dist,
      traj_start_time = (\<lambda>tr i. start_times (start_time (conf tr)) (traj tr) ! i),
      traj_duration = (\<lambda>tr. flight_time (traj tr)),
      fire_project_on_firefront = (\<lambda>fd seg u t.
         if 0 \<le> t / 2 \<and> t / 2 < real (x_width (ignitions fd))
         then Some (shift_segment seg (t / 2 - wp_x (seg_start seg)))
         else None),
      as_point = (\<lambda>r c. \<lparr>pt_x = real (cell_x c), pt_y = real (cell_y c)\<rparr>),
      as_cell = (\<lambda>r wp. \<lparr>cell_x = nat \<lfloor>wp_x wp\<rfloor>, cell_y = nat \<lfloor>wp_y wp\<rfloor>\<rparr>),
      new_trajectory = (\<lambda>c. \<lparr>conf = c, traj = [], frozen_before = None\<rparr>)\<rparr>"

definition line_fire :: "nat \<Rightarrow> FireData" where
  "line_fire w =
     \<lparr>ignitions = \<lparr>x_width = w, y_height = 1, cell_value = (\<lambda>c. 2 * real (cell_x c))\<rparr>,
      traversal_end = \<lparr>x_width = w, y_height = 1, cell_value = (\<lambda>c. 2 * real (cell_x c) + 10)\<rparr>\<rparr>"

text \<open>A segment of length 0 at \<open>(a, 0)\<close> with heading \<open>d\<close>.\<close>

definition hover :: "real \<Rightarrow> real \<Rightarrow> Segment" where
  "hover a d = \<lparr>seg_start = \<lparr>wp_x = a, wp_y = 0, wp_dir = d\<rparr>,
                seg_end = \<lparr>wp_x = a, wp_y = 0, wp_dir = d\<rparr>, seg_length = 0\<rparr>"

definition line_conf :: "real \<Rightarrow> TrajectoryConfig" where
  "line_conf t0 = \<lparr>uav = \<lparr>rho = 1, speed = 1\<rparr>, start_time = t0, max_flight_time = 1000\<rparr>"

definition line_traj :: "Segment list \<Rightarrow> Trajectory" where
  "line_traj segs = \<lparr>conf = line_conf 0, traj = segs, frozen_before = None\<rparr>"


definition line_plan :: "Segment list \<Rightarrow> Plan" where
  "line_plan segs =
     \<lparr>time_window = \<lparr>tw_start = 0, tw_end = 400\<rparr>,
      trajectories = [line_traj segs],
      fire = line_fire 200,
      possible_observations = []\<rparr>"

text \<open>
  A plan over a raster of 1200 columns, scored against the cells of columns 0, 250 and 1000.
\<close>

definition scored_plan :: "Segment list \<Rightarrow> Plan" where
  "scored_plan segs =
     \<lparr>time_window = \<lparr>tw_start = 0, tw_end = 2000\<rparr>,
      trajectories = [line_traj segs],
      fire = line_fire 1200,
      possible_observations =
        [\<lparr>ptw_pt = \<lparr>pt_x = 0, pt_y = 0\<rparr>, ptw_tw = \<lparr>tw_start = 0, tw_end = 10\<rparr>\<rparr>,
         \<lparr>ptw_pt = \<lparr>pt_x = 250, pt_y = 0\<rparr>, ptw_tw = \<lparr>tw_start = 500, tw_end = 510\<rparr>\<rparr>,
         \<lparr>ptw_pt = \<lparr>pt_x = 1000, pt_y = 0\<rparr>, ptw_tw = \<lparr>tw_start = 2000, tw_end = 2010\<rparr>\<rparr>]\<rparr>"




section \<open>Properties of the repair pass\<close>

lemma repair_loop_step:
  "seg_id < Trajectory_size tr \<Longrightarrow>
   repair_loop E fd tr seg_id =
     (case repair_body E fd tr seg_id of
        Inl e \<Rightarrow> Inl e
      | Inr turn \<Rightarrow> repair_loop E fd (fst turn) (snd turn))"
  by (subst repair_loop.simps) simp

lemma repair_loop_stop:
  "\<not> seg_id < Trajectory_size tr \<Longrightarrow> repair_loop E fd tr seg_id = Inr tr"
  by (subst repair_loop.simps) simp





lemma repair_trajectories_Inr:
  "repair_trajectories E fd trs = Inr rs \<longleftrightarrow>
     list_all2 (\<lambda>tr r. repair_loop E fd tr 0 = Inr r) trs rs"
proof (induction trs arbitrary: rs)
  case Nil
  show ?case by auto
next
  case (Cons tr trs)
  show ?case
  proof (cases rs)
    case Nil
    then show ?thesis by (simp split: sum.split)
  next
    case (Cons r rs')
    then show ?thesis
      using Cons.IH [of rs'] by (auto split: sum.split)
  qed
qed


lemma project_on_firefront_Inr:
  "project_on_firefront E p = Inr q \<longleftrightarrow>
     length (trajectories q) = length (trajectories p) \<and>
     (\<forall>k<length (trajectories p).
        repair_loop E (fire p) (trajectories p ! k) 0 = Inr (trajectories q ! k)) \<and>
     q = p\<lparr>trajectories := trajectories q\<rparr>"
proof
  assume "project_on_firefront E p = Inr q"
  then obtain trs where t: "repair_trajectories E (fire p) (trajectories p) = Inr trs"
    and q: "q = p\<lparr>trajectories := trs\<rparr>"
    by (auto simp: project_on_firefront_def split: sum.splits)
  from t have "list_all2 (\<lambda>tr r. repair_loop E (fire p) tr 0 = Inr r) (trajectories p) trs"
    by (simp add: repair_trajectories_Inr)
  with q show "length (trajectories q) = length (trajectories p) \<and>
     (\<forall>k<length (trajectories p).
        repair_loop E (fire p) (trajectories p ! k) 0 = Inr (trajectories q ! k)) \<and>
     q = p\<lparr>trajectories := trajectories q\<rparr>"
    by (simp add: list_all2_conv_all_nth)
next
  assume a: "length (trajectories q) = length (trajectories p) \<and>
     (\<forall>k<length (trajectories p).
        repair_loop E (fire p) (trajectories p ! k) 0 = Inr (trajectories q ! k)) \<and>
     q = p\<lparr>trajectories := trajectories q\<rparr>"
  then have "list_all2 (\<lambda>tr r. repair_loop E (fire p) tr 0 = Inr r)
      (trajectories p) (trajectories q)"
    by (simp add: list_all2_conv_all_nth)
  then have "repair_trajectories E (fire p) (trajectories p) = Inr (trajectories q)"
    by (simp add: repair_trajectories_Inr)
  then have "project_on_firefront E p = Inr (p\<lparr>trajectories := trajectories q\<rparr>)"
    by (simp add: project_on_firefront_def)
  with a show "project_on_firefront E p = Inr q" by simp
qed



text \<open>What a turn that succeeds does to the index, the length and the segments before.\<close>

lemma repair_body_shape:
  assumes "seg_id < Trajectory_size tr" and "repair_body E fd tr seg_id = Inr turn"
  shows "(snd turn = seg_id \<and> length (traj (fst turn)) < length (traj tr)) \<or>
         (snd turn = seg_id + 1 \<and> length (traj (fst turn)) = length (traj tr))"
  using assms
  by (auto simp: repair_body_def Trajectory_size_def Trajectory_insert_segment_def
      Trajectory_erase_segment_def Trajectory_edit_def
      split: option.splits if_splits sum.splits)

lemma repair_body_take:
  assumes "seg_id < Trajectory_size tr" and "repair_body E fd tr seg_id = Inr turn"
  shows "take seg_id (traj (fst turn)) = take seg_id (traj tr)"
  using assms
  by (auto simp: repair_body_def Trajectory_size_def Trajectory_insert_segment_def
      Trajectory_erase_segment_def Trajectory_edit_def
      split: option.splits if_splits sum.splits)

lemma repair_body_keeps:
  assumes "repair_body E fd tr seg_id = Inr turn"
  shows "conf (fst turn) = conf tr \<and> frozen_before (fst turn) = frozen_before tr"
  using assms
  by (auto simp: repair_body_def Trajectory_insert_segment_def
      Trajectory_erase_segment_def Trajectory_edit_def
      split: option.splits if_splits sum.splits)

lemma repair_loop_keeps:
  "repair_loop E fd tr seg_id = Inr r \<Longrightarrow>
   conf r = conf tr \<and> frozen_before r = frozen_before tr"
proof (induction E fd tr seg_id rule: repair_loop.induct)
  case (1 E fd tr seg_id)
  show ?case
  proof (cases "seg_id < Trajectory_size tr")
    case True
    with "1.prems" obtain turn where b: "repair_body E fd tr seg_id = Inr turn"
      and l: "repair_loop E fd (fst turn) (snd turn) = Inr r"
      by (auto simp: repair_loop_step split: sum.splits)
    from "1.IH" [OF True b l] repair_body_keeps [OF b] show ?thesis by simp
  next
    case False
    with "1.prems" show ?thesis by (simp add: repair_loop_stop)
  qed
qed

lemma repair_loop_length_le:
  "repair_loop E fd tr seg_id = Inr r \<Longrightarrow> length (traj r) \<le> length (traj tr)"
proof (induction E fd tr seg_id rule: repair_loop.induct)
  case (1 E fd tr seg_id)
  show ?case
  proof (cases "seg_id < Trajectory_size tr")
    case True
    with "1.prems" obtain turn where b: "repair_body E fd tr seg_id = Inr turn"
      and l: "repair_loop E fd (fst turn) (snd turn) = Inr r"
      by (auto simp: repair_loop_step split: sum.splits)
    from "1.IH" [OF True b l] repair_body_shape [OF True b] show ?thesis by auto
  next
    case False
    with "1.prems" show ?thesis by (simp add: repair_loop_stop)
  qed
qed

lemma repair_loop_take:
  "repair_loop E fd tr seg_id = Inr r \<Longrightarrow> take seg_id (traj r) = take seg_id (traj tr)"
proof (induction E fd tr seg_id rule: repair_loop.induct)
  case (1 E fd tr seg_id)
  show ?case
  proof (cases "seg_id < Trajectory_size tr")
    case True
    with "1.prems" obtain turn where b: "repair_body E fd tr seg_id = Inr turn"
      and l: "repair_loop E fd (fst turn) (snd turn) = Inr r"
      by (auto simp: repair_loop_step split: sum.splits)
    have ge: "seg_id \<le> snd turn"
      using repair_body_shape [OF True b] by auto
    have "take seg_id (traj r) = take seg_id (take (snd turn) (traj r))"
      using ge by (simp add: min_def)
    also have "\<dots> = take seg_id (take (snd turn) (traj (fst turn)))"
      using "1.IH" [OF True b l] by simp
    also have "\<dots> = take seg_id (traj (fst turn))"
      using ge by (simp add: min_def)
    also have "\<dots> = take seg_id (traj tr)"
      by (rule repair_body_take [OF True b])
    finally show ?thesis .
  next
    case False
    with "1.prems" show ?thesis by (simp add: repair_loop_stop)
  qed
qed

lemma repair_body_on_front:
  "on_front E fd tr seg_id \<Longrightarrow> repair_body E fd tr seg_id = Inr (tr, seg_id + 1)"
  by (simp add: repair_body_def on_front_def)

lemma repair_loop_unchanged:
  "(\<And>i. seg_id \<le> i \<Longrightarrow> i < Trajectory_size tr \<Longrightarrow> on_front E fd tr i) \<Longrightarrow>
   repair_loop E fd tr seg_id = Inr tr"
proof (induction E fd tr seg_id rule: repair_loop.induct)
  case (1 E fd tr seg_id)
  show ?case
  proof (cases "seg_id < Trajectory_size tr")
    case True
    have b: "repair_body E fd tr seg_id = Inr (tr, seg_id + 1)"
      using "1.prems" [of seg_id] True by (simp add: repair_body_on_front)
    have "repair_loop E fd (fst (tr, seg_id + 1)) (snd (tr, seg_id + 1)) = Inr (fst (tr, seg_id + 1))"
      by (rule "1.IH" [OF True b]) (simp_all add: "1.prems")
    then show ?thesis
      by (simp add: repair_loop_step [OF True] b)
  next
    case False
    then show ?thesis by (simp add: repair_loop_stop)
  qed
qed

lemma repair_loop_changed:
  "repair_loop E fd tr seg_id = Inr tr \<Longrightarrow> seg_id \<le> i \<Longrightarrow> i < Trajectory_size tr \<Longrightarrow>
   on_front E fd tr i"
proof (induction E fd tr seg_id rule: repair_loop.induct)
  case (1 E fd tr seg_id)
  from "1.prems" have lt: "seg_id < Trajectory_size tr" by simp
  with "1.prems"(1) obtain turn where bt: "repair_body E fd tr seg_id = Inr turn"
    and res: "repair_loop E fd (fst turn) (snd turn) = Inr tr"
    by (auto simp: repair_loop_step split: sum.splits)
  have len: "length (traj tr) \<le> length (traj (fst turn))"
    by (rule repair_loop_length_le [OF res])
  with repair_body_shape [OF lt bt]
  have adv: "snd turn = seg_id + 1" by auto
  have "take (snd turn) (traj tr) = take (snd turn) (traj (fst turn))"
    by (rule repair_loop_take [OF res])
  then have "take (Suc seg_id) (traj (fst turn)) = take (Suc seg_id) (traj tr)"
    by (simp add: adv)
  then have "take (Suc seg_id) (traj (fst turn)) ! seg_id = take (Suc seg_id) (traj tr) ! seg_id"
    by simp
  then have same: "traj (fst turn) ! seg_id = traj tr ! seg_id"
    by simp
  have here: "on_front E fd tr seg_id"
  proof (rule ccontr)
    assume "\<not> on_front E fd tr seg_id"
    then have "snd turn = seg_id \<or> traj (fst turn) ! seg_id \<noteq> traj tr ! seg_id"
      using lt bt
      by (auto simp: repair_body_def on_front_def Trajectory_size_def
          Trajectory_insert_segment_def Trajectory_erase_segment_def Trajectory_edit_def
          nth_append split: option.splits if_splits sum.splits)
    with adv same show False by simp
  qed
  then have b: "repair_body E fd tr seg_id = Inr (tr, seg_id + 1)"
    by (rule repair_body_on_front)
  with bt have turn: "turn = (tr, seg_id + 1)" by simp
  show ?case
  proof (cases "i = seg_id")
    case True
    with here show ?thesis by simp
  next
    case False
    with "1.prems" have "snd turn \<le> i" by (simp add: turn)
    moreover have "i < Trajectory_size (fst turn)"
      using "1.prems"(3) by (simp add: turn)
    moreover have "repair_loop E fd (fst turn) (snd turn) = Inr (fst turn)"
      using res by (simp add: turn)
    ultimately have "on_front E fd (fst turn) i"
      by (rule "1.IH" [OF lt bt, rotated 1]) 
    then show ?thesis by (simp add: turn)
  qed
qed

lemma repair_loop_fixed_iff:
  "repair_loop E fd tr 0 = Inr tr \<longleftrightarrow> (\<forall>i<Trajectory_size tr. on_front E fd tr i)"
proof
  assume "repair_loop E fd tr 0 = Inr tr"
  then show "\<forall>i<Trajectory_size tr. on_front E fd tr i"
    using repair_loop_changed [of E fd tr 0] by simp
next
  assume "\<forall>i<Trajectory_size tr. on_front E fd tr i"
  then show "repair_loop E fd tr 0 = Inr tr"
    by (intro repair_loop_unchanged) simp
qed

lemma project_on_firefront_fixed_iff:
  "project_on_firefront E q = Inr q \<longleftrightarrow>
     (\<forall>tr \<in> set (trajectories q). \<forall>i < length (traj tr). on_front E (fire q) tr i)"
proof -
  have "project_on_firefront E q = Inr q \<longleftrightarrow>
      (\<forall>k<length (trajectories q).
         repair_loop E (fire q) (trajectories q ! k) 0 = Inr (trajectories q ! k))"
    by (simp add: project_on_firefront_Inr)
  also have "\<dots> \<longleftrightarrow> (\<forall>tr \<in> set (trajectories q). repair_loop E (fire q) tr 0 = Inr tr)"
    by (simp add: all_set_conv_all_nth)
  also have "\<dots> \<longleftrightarrow>
      (\<forall>tr \<in> set (trajectories q). \<forall>i < length (traj tr). on_front E (fire q) tr i)"
    by (simp add: repair_loop_fixed_iff Trajectory_size_def)
  finally show ?thesis .
qed

lemma project_on_firefront_fields:
  assumes "project_on_firefront E p = Inr q"
  shows "time_window q = time_window p" and "fire q = fire p"
    and "possible_observations q = possible_observations p"
    and "length (trajectories q) = length (trajectories p)"
proof -
  from assms obtain trs where q: "q = p\<lparr>trajectories := trs\<rparr>"
    by (auto simp: project_on_firefront_def split: sum.splits)
  then show "time_window q = time_window p" and "fire q = fire p"
    and "possible_observations q = possible_observations p"
    by simp_all
  from assms show "length (trajectories q) = length (trajectories p)"
    by (simp add: project_on_firefront_Inr)
qed

text \<open>
  Claim C1, as amended. When the repair pass has returned a Plan, a second pass returns that
  Plan unchanged exactly when every segment of every once-repaired trajectory is its own
  projection at its scheduled start time in that trajectory.
\<close>

theorem repair_twice:
  "project_on_firefront E p = Inr q \<Longrightarrow>
   (project_on_firefront E q = Inr q \<longleftrightarrow>
    (\<forall>tr \<in> set (trajectories q). \<forall>i < length (traj tr).
       fire_project_on_firefront E (fire p) (traj tr ! i) (uav (conf tr)) (traj_start_time E tr i)
         = Some (traj tr ! i)))"
proof -
  assume "project_on_firefront E p = Inr q"
  then have "fire q = fire p" by (rule project_on_firefront_fields)
  then show ?thesis
    by (simp add: project_on_firefront_fixed_iff on_front_def)
qed

subsection \<open>Runs in the small world\<close>

lemmas line_defs = line_world_def line_fire_def line_conf_def line_plan_def line_traj_def
  hover_def shift_segment_def axis_dist_def Trajectory_size_def repair_body_def
  prev_point_dist_def next_point_dist_def footprint_center_def Waypoint_as_point_def
  Trajectory_insert_segment_def Trajectory_erase_segment_def Trajectory_edit_def
  Trajectory_can_modify_def

lemma line_pass_far:
  "project_on_firefront line_world (line_plan [hover 0 d, hover 100 0]) =
   Inr (line_plan [hover 0 d, hover 50 0])"
  by (simp add: project_on_firefront_def repair_loop_step repair_loop_stop line_defs)

lemma line_pass_near:
  "project_on_firefront line_world (line_plan [hover 0 0, hover 50 0]) =
   Inr (line_plan [hover 0 0])"
  by (simp add: project_on_firefront_def repair_loop_step repair_loop_stop line_defs)

lemma line_pass_single:
  "project_on_firefront line_world (line_plan [hover a d]) = Inr (line_plan [hover 0 d])"
  by (simp add: project_on_firefront_def repair_loop_step repair_loop_stop line_defs)

lemma line_pass_origin:
  "project_on_firefront line_world (line_plan [hover 0 d, hover 0 d']) =
   Inr (line_plan [hover 0 d, hover 0 d'])"
  by (simp add: project_on_firefront_def repair_loop_step repair_loop_stop line_defs)

lemma hover_eq: "hover a d = hover a' d' \<longleftrightarrow> a = a' \<and> d = d'"
  by (auto simp: hover_def)

lemma line_plan_eq: "line_plan segs = line_plan segs' \<longleftrightarrow> segs = segs'"
  by (auto simp: line_plan_def line_traj_def)


theorem repair_twice_witness:
  "project_on_firefront line_world (line_plan [hover 100 0]) = Inr (line_plan [hover 0 0]) \<and>
   project_on_firefront line_world (line_plan [hover 0 0]) = Inr (line_plan [hover 0 0])"
proof -
  have once: "project_on_firefront line_world (line_plan [hover 100 0]) = Inr (line_plan [hover 0 0])"
    by (rule line_pass_single)
  have "project_on_firefront line_world (line_plan [hover 0 0]) = Inr (line_plan [hover 0 0])"
    by (rule iffD2 [OF repair_twice [OF once]]) (simp add: line_defs)
  with once show ?thesis by simp
qed

theorem repair_twice_counterexample:
  "project_on_firefront line_world (line_plan [hover 0 0, hover 100 0]) =
     Inr (line_plan [hover 0 0, hover 50 0]) \<and>
   project_on_firefront line_world (line_plan [hover 0 0, hover 50 0]) =
     Inr (line_plan [hover 0 0]) \<and>
   line_plan [hover 0 0] \<noteq> line_plan [hover 0 0, hover 50 0]"
  by (simp add: line_pass_far line_pass_near line_plan_eq)

section \<open>Properties of the edit operations\<close>

lemma project_on_firefront_confs:
  assumes "project_on_firefront E p = Inr q"
  shows "map conf (trajectories q) = map conf (trajectories p)"
proof (rule nth_equalityI)
  from assms have len: "length (trajectories q) = length (trajectories p)"
    and loops: "\<forall>k<length (trajectories p).
        repair_loop E (fire p) (trajectories p ! k) 0 = Inr (trajectories q ! k)"
    by (simp_all add: project_on_firefront_Inr)
  from len show "length (map conf (trajectories q)) = length (map conf (trajectories p))"
    by simp
  fix k assume "k < length (map conf (trajectories q))"
  then have k: "k < length (trajectories p)" using len by simp
  with loops have "repair_loop E (fire p) (trajectories p ! k) 0 = Inr (trajectories q ! k)"
    by simp
  from repair_loop_keeps [OF this] k len
  show "map conf (trajectories q) ! k = map conf (trajectories p) ! k"
    by simp
qed

lemma insert_segment_Inr:
  assumes "insert_segment E p traj_id seg insert_loc = Inr p'"
  shows "traj_id < length (trajectories p) \<and>
         insert_loc \<le> length (traj (trajectories p ! traj_id)) \<and>
         (\<exists>edited. Trajectory_insert_segment E (trajectories p ! traj_id) seg insert_loc = Inr edited \<and>
            project_on_firefront E (p\<lparr>trajectories := (trajectories p)[traj_id := edited]\<rparr>) = Inr p')"
  using assms by (auto simp: insert_segment_def split: if_splits sum.splits)

lemma erase_segment_Inr:
  assumes "erase_segment E p traj_id at_index = Inr p'"
  shows "traj_id < length (trajectories p) \<and>
         at_index < length (traj (trajectories p ! traj_id)) \<and>
         (\<exists>edited. Trajectory_erase_segment E (trajectories p ! traj_id) at_index = Inr edited \<and>
            project_on_firefront E (p\<lparr>trajectories := (trajectories p)[traj_id := edited]\<rparr>) = Inr p')"
  using assms by (auto simp: erase_segment_def split: if_splits sum.splits)

lemma replace_segment_Inr:
  assumes "replace_segment E p traj_id at_index by_segment = Inr p'"
  shows "\<exists>p1 p2. erase_segment E p traj_id at_index = Inr p1 \<and>
           insert_segment E p1 traj_id by_segment at_index = Inr p2 \<and>
           project_on_firefront E p2 = Inr p'"
  using assms by (auto simp: replace_segment_def split: if_splits sum.splits)

lemma insert_segment_frame:
  assumes "insert_segment E p traj_id seg insert_loc = Inr p'"
  shows "time_window p' = time_window p \<and> fire p' = fire p \<and>
         possible_observations p' = possible_observations p"
proof -
  from insert_segment_Inr [OF assms] obtain edited where
    "project_on_firefront E (p\<lparr>trajectories := (trajectories p)[traj_id := edited]\<rparr>) = Inr p'"
    by blast
  from project_on_firefront_fields(1-3) [OF this] show ?thesis by simp
qed

lemma erase_segment_frame:
  assumes "erase_segment E p traj_id at_index = Inr p'"
  shows "time_window p' = time_window p \<and> fire p' = fire p \<and>
         possible_observations p' = possible_observations p"
proof -
  from erase_segment_Inr [OF assms] obtain edited where
    "project_on_firefront E (p\<lparr>trajectories := (trajectories p)[traj_id := edited]\<rparr>) = Inr p'"
    by blast
  from project_on_firefront_fields(1-3) [OF this] show ?thesis by simp
qed

lemma replace_segment_frame:
  assumes "replace_segment E p traj_id at_index by_segment = Inr p'"
  shows "time_window p' = time_window p \<and> fire p' = fire p \<and>
         possible_observations p' = possible_observations p"
proof -
  from replace_segment_Inr [OF assms] obtain p1 p2 where
    e: "erase_segment E p traj_id at_index = Inr p1" and
    i: "insert_segment E p1 traj_id by_segment at_index = Inr p2" and
    r: "project_on_firefront E p2 = Inr p'"
    by blast
  from erase_segment_frame [OF e] insert_segment_frame [OF i] project_on_firefront_fields(1-3) [OF r]
  show ?thesis by simp
qed

text \<open>
  Claim C8. The repair pass changes the trajectories of a Plan only: the time window, the
  fire data and the possible observations of the Plan that the pass returns are those of the
  Plan it was run on, and every trajectory keeps its configuration. The same holds for the
  Plan that a successful insert_segment, erase_segment or replace_segment leaves. (A pass or
  an edit that fails, on an assertion or on a refused trajectory edit, returns no Plan.)
\<close>

theorem repair_frame:
  "(\<forall>q. project_on_firefront E p = Inr q \<longrightarrow>
      time_window q = time_window p \<and> fire q = fire p \<and>
      possible_observations q = possible_observations p \<and>
      map conf (trajectories q) = map conf (trajectories p)) \<and>
   (\<forall>p'. insert_segment E p traj_id seg loc = Inr p' \<longrightarrow>
      time_window p' = time_window p \<and> fire p' = fire p \<and>
      possible_observations p' = possible_observations p) \<and>
   (\<forall>p'. erase_segment E p traj_id loc = Inr p' \<longrightarrow>
      time_window p' = time_window p \<and> fire p' = fire p \<and>
      possible_observations p' = possible_observations p) \<and>
   (\<forall>p'. replace_segment E p traj_id loc seg = Inr p' \<longrightarrow>
      time_window p' = time_window p \<and> fire p' = fire p \<and>
      possible_observations p' = possible_observations p)"
proof (intro conjI allI impI)
  fix q assume r: "project_on_firefront E p = Inr q"
  show "time_window q = time_window p" and "fire q = fire p"
    and "possible_observations q = possible_observations p"
    by (rule project_on_firefront_fields [OF r])+
  show "map conf (trajectories q) = map conf (trajectories p)"
    by (rule project_on_firefront_confs [OF r])
next
  fix p' assume "insert_segment E p traj_id seg loc = Inr p'"
  from insert_segment_frame [OF this]
  show "time_window p' = time_window p" and "fire p' = fire p"
    and "possible_observations p' = possible_observations p"
    by blast+
next
  fix p' assume "erase_segment E p traj_id loc = Inr p'"
  from erase_segment_frame [OF this]
  show "time_window p' = time_window p" and "fire p' = fire p"
    and "possible_observations p' = possible_observations p"
    by blast+
next
  fix p' assume "replace_segment E p traj_id loc seg = Inr p'"
  from replace_segment_frame [OF this]
  show "time_window p' = time_window p" and "fire p' = fire p"
    and "possible_observations p' = possible_observations p"
    by blast+
qed

text \<open>
  Claim C10. replace_segment called with \<open>at_index\<close> equal to the number of segments of the
  addressed trajectory passes its own check (\<open>at_index <= size\<close>) and fails the assertion
  \<open>at_index < size\<close> of the erase_segment it calls; beyond the size it fails its own check;
  so whenever replace_segment succeeds, \<open>at_index\<close> is below the number of segments.
\<close>

theorem replace_segment_index:
  "(traj_id < length (trajectories p) \<and> at_index = length (traj (trajectories p ! traj_id)) \<longrightarrow>
      replace_segment E p traj_id at_index by_segment =
        Inl (AssertionFailed ''at_index < trajectories[traj_id].traj.size()'')) \<and>
   (traj_id < length (trajectories p) \<and> at_index > length (traj (trajectories p ! traj_id)) \<longrightarrow>
      replace_segment E p traj_id at_index by_segment =
        Inl (AssertionFailed ''at_index <= trajectories[traj_id].traj.size()'')) \<and>
   (\<forall>p'. replace_segment E p traj_id at_index by_segment = Inr p' \<longrightarrow>
      traj_id < length (trajectories p) \<and>
      at_index < length (traj (trajectories p ! traj_id)))"
proof (intro conjI allI impI)
  assume "traj_id < length (trajectories p) \<and>
          at_index = length (traj (trajectories p ! traj_id))"
  then show "replace_segment E p traj_id at_index by_segment =
      Inl (AssertionFailed ''at_index < trajectories[traj_id].traj.size()'')"
    by (simp add: replace_segment_def erase_segment_def)
next
  assume "traj_id < length (trajectories p) \<and>
          at_index > length (traj (trajectories p ! traj_id))"
  then show "replace_segment E p traj_id at_index by_segment =
      Inl (AssertionFailed ''at_index <= trajectories[traj_id].traj.size()'')"
    by (simp add: replace_segment_def)
next
  fix p' assume r: "replace_segment E p traj_id at_index by_segment = Inr p'"
  from replace_segment_Inr [OF r] obtain p1 where
    "erase_segment E p traj_id at_index = Inr p1" by blast
  from erase_segment_Inr [OF this]
  show "traj_id < length (trajectories p)"
    and "at_index < length (traj (trajectories p ! traj_id))"
    by simp_all
qed

subsection \<open>Edits in the small world\<close>

lemma line_plan_edit:
  "(line_plan segs)\<lparr>trajectories := (trajectories (line_plan segs))[0 := line_traj segs']\<rparr> =
   line_plan segs'"
  by (simp add: line_plan_def)

lemma line_plan_first: "trajectories (line_plan segs) ! 0 = line_traj segs"
  by (simp add: line_plan_def)

lemma line_plan_length: "length (trajectories (line_plan segs)) = 1"
  by (simp add: line_plan_def)

lemma line_traj_segments: "traj (line_traj segs) = segs"
  by (simp add: line_traj_def)

lemma line_traj_edit:
  "flight_time segs' \<le> 1000 \<Longrightarrow>
   Trajectory_edit line_world (line_traj segs) i segs' = Inr (line_traj segs')"
  by (simp add: Trajectory_edit_def Trajectory_can_modify_def line_traj_def line_world_def
      line_conf_def)

lemma flight_time_hover:
  "seg_length (hover a d) = 0"
  "axis_dist (Waypoint_as_point (seg_end (hover a d))) (Waypoint_as_point (seg_start (hover b e)))
     = \<bar>a - b\<bar>"
  by (simp_all add: hover_def axis_dist_def Waypoint_as_point_def)

lemma line_erase_first:
  "erase_segment line_world (line_plan [hover 0 0, hover 100 0]) 0 0 =
   Inr (line_plan [hover 0 0])"
  by (simp add: erase_segment_def line_plan_length line_plan_first line_traj_segments
      Trajectory_erase_segment_def line_traj_edit flight_time_hover line_plan_edit
      line_pass_single)

lemma line_insert_first:
  "insert_segment line_world (line_plan [hover 0 0]) 0 (hover 0 1) 0 =
   Inr (line_plan [hover 0 1, hover 0 0])"
  by (simp add: insert_segment_def line_plan_length line_plan_first line_traj_segments
      Trajectory_insert_segment_def line_traj_edit flight_time_hover line_plan_edit
      line_pass_origin)

lemma line_replace:
  "replace_segment line_world (line_plan [hover 0 0, hover 100 0]) 0 0 (hover 0 1) =
   Inr (line_plan [hover 0 1, hover 0 0])"
  by (simp add: replace_segment_def line_erase_first line_insert_first line_pass_origin
      line_plan_length line_plan_first line_traj_segments)

lemma line_replace_once:
  "replace_then_repair line_world (line_plan [hover 0 0, hover 100 0]) 0 0 (hover 0 1) =
   Inr (line_plan [hover 0 1, hover 50 0])"
  by (simp add: replace_then_repair_def Trajectory_replace_segment_def line_plan_first
      line_traj_segments line_traj_edit flight_time_hover line_plan_edit line_pass_far)

text \<open>
  Claim C5, at the failing input. In the small world, on the Plan whose trajectory is
  \<open>[hover 0 0, hover 100 0]\<close>, replace_segment of segment 0 by \<open>hover 0 1\<close> erases, repairs,
  inserts, repairs and repairs again, and leaves \<open>[hover 0 1, hover 0 0]\<close>: the lone second
  segment was projected at start time 0 by the pass that follows the erasure. The
  replacement on the trajectory followed by one repair pass leaves \<open>[hover 0 1, hover 50 0]\<close>.
\<close>

theorem replace_segment_passes:
  "replace_segment line_world (line_plan [hover 0 0, hover 100 0]) 0 0 (hover 0 1) =
     Inr (line_plan [hover 0 1, hover 0 0]) \<and>
   replace_then_repair line_world (line_plan [hover 0 0, hover 100 0]) 0 0 (hover 0 1) =
     Inr (line_plan [hover 0 1, hover 50 0]) \<and>
   line_plan [hover 0 1, hover 0 0] \<noteq> line_plan [hover 0 1, hover 50 0]"
  by (simp add: line_replace line_replace_once line_plan_eq hover_eq)

theorem repair_frame_witness:
  "\<exists>p'. insert_segment line_world (line_plan [hover 0 0]) 0 (hover 0 1) 0 = Inr p' \<and>
         trajectories p' \<noteq> trajectories (line_plan [hover 0 0]) \<and>
         time_window p' = time_window (line_plan [hover 0 0]) \<and>
         fire p' = fire (line_plan [hover 0 0]) \<and>
         possible_observations p' = possible_observations (line_plan [hover 0 0])"
proof -
  have "trajectories (line_plan [hover 0 1, hover 0 0]) \<noteq> trajectories (line_plan [hover 0 0])"
    by (simp add: line_plan_def line_traj_def)
  with line_insert_first repair_frame [of line_world "line_plan [hover 0 0]" 0 "hover 0 1" 0]
  show ?thesis by blast
qed

theorem replace_segment_index_witness:
  "replace_segment line_world (line_plan [hover 0 0, hover 100 0]) 0 2 (hover 0 1) =
     Inl (AssertionFailed ''at_index < trajectories[traj_id].traj.size()'') \<and>
   replace_segment line_world (line_plan [hover 0 0, hover 100 0]) 0 0 (hover 0 1) =
     Inr (line_plan [hover 0 1, hover 0 0]) \<and>
   (0::nat) < length (traj (trajectories (line_plan [hover 0 0, hover 100 0]) ! 0))"
proof -
  let ?p = "line_plan [hover 0 0, hover 100 0]"
  have "0 < length (trajectories ?p) \<and> 2 = length (traj (trajectories ?p ! 0))"
    by (simp add: line_plan_def line_traj_def)
  with replace_segment_index [of 0 ?p 2 line_world "hover 0 1"]
  have "replace_segment line_world ?p 0 2 (hover 0 1) =
      Inl (AssertionFailed ''at_index < trajectories[traj_id].traj.size()'')"
    by blast
  moreover from replace_segment_index [of 0 ?p 0 line_world "hover 0 1"] line_replace
  have "(0::nat) < length (traj (trajectories ?p ! 0))"
    by blast
  ultimately show ?thesis
    using line_replace by simp
qed

section \<open>Properties of observations, cost and construction\<close>

lemma observations_loop_step:
  "seg_id < Trajectory_size tr \<Longrightarrow>
   observations_loop E fd tr seg_id obs =
     observations_loop E fd tr (seg_id + 1) (observations_body E fd tr seg_id obs)"
  by (subst observations_loop.simps) simp

lemma observations_loop_stop:
  "\<not> seg_id < Trajectory_size tr \<Longrightarrow> observations_loop E fd tr seg_id obs = obs"
  by (subst observations_loop.simps) simp

text \<open>The test of line 102 and the entry of line 104, for the segment at an index.\<close>

lemma observations_body_eq:
  "observations_body E fd tr i obs =
     obs @ map (\<lambda>i. \<lparr>pt = footprint_center E tr (traj tr ! i), time = traj_start_time E tr i\<rparr>)
       (filter (\<lambda>i. cell_value (ignitions fd)
                       (as_cell E (ignitions fd) (visibilty_center E (uav (conf tr)) (traj tr ! i)))
                     \<le> traj_start_time E tr i \<and>
                   traj_start_time E tr i
                     \<le> cell_value (traversal_end fd)
                       (as_cell E (ignitions fd) (visibilty_center E (uav (conf tr)) (traj tr ! i))))
          [i])"
  by (simp add: observations_body_def Let_def footprint_center_def Waypoint_as_point_def)

lemma observations_loop_eq:
  "observations_loop E fd tr seg_id obs =
     obs @ map (\<lambda>i. \<lparr>pt = footprint_center E tr (traj tr ! i), time = traj_start_time E tr i\<rparr>)
       (filter (\<lambda>i. cell_value (ignitions fd)
                       (as_cell E (ignitions fd) (visibilty_center E (uav (conf tr)) (traj tr ! i)))
                     \<le> traj_start_time E tr i \<and>
                   traj_start_time E tr i
                     \<le> cell_value (traversal_end fd)
                       (as_cell E (ignitions fd) (visibilty_center E (uav (conf tr)) (traj tr ! i))))
          [seg_id..<Trajectory_size tr])"
proof (induction E fd tr seg_id obs rule: observations_loop.induct)
  case (1 E fd tr seg_id obs)
  show ?case
  proof (cases "seg_id < Trajectory_size tr")
    case True
    have split: "[seg_id..<Trajectory_size tr] = [seg_id] @ [seg_id + 1..<Trajectory_size tr]"
      using True by (simp add: upt_conv_Cons)
    show ?thesis
      unfolding observations_loop_step [OF True] "1.IH" [OF True] split filter_append map_append
      by (subst observations_body_eq) simp
  next
    case False
    then show ?thesis by (simp add: observations_loop_stop)
  qed
qed

lemma fold_append_concat:
  "fold (\<lambda>x acc. acc @ g x) xs acc = acc @ concat (map g xs)"
  by (induction xs arbitrary: acc) simp_all

text \<open>
  Claim C4. observations() returns, trajectory after trajectory and segment after segment,
  one entry for each segment whose start time lies between the ignition time and the
  traversal end of the cell that contains its footprint centre, and no entry for any other
  segment; the entry is the footprint centre tagged with the start time of the segment.
\<close>

theorem observations_membership:
  "observations E p =
     concat (map (\<lambda>tr.
        map (\<lambda>i. \<lparr>pt = \<lparr>pt_x = wp_x (visibilty_center E (uav (conf tr)) (traj tr ! i)),
                          pt_y = wp_y (visibilty_center E (uav (conf tr)) (traj tr ! i))\<rparr>,
                    time = traj_start_time E tr i\<rparr>)
          (filter (\<lambda>i. cell_value (ignitions (fire p))
                          (as_cell E (ignitions (fire p))
                             (visibilty_center E (uav (conf tr)) (traj tr ! i)))
                        \<le> traj_start_time E tr i \<and>
                      traj_start_time E tr i
                        \<le> cell_value (traversal_end (fire p))
                          (as_cell E (ignitions (fire p))
                             (visibilty_center E (uav (conf tr)) (traj tr ! i))))
             [0..<length (traj tr)]))
       (trajectories p))"
  unfolding observations_def observations_loop_eq
  by (simp add: fold_append_concat [where acc = "[]", simplified] footprint_center_def
      Waypoint_as_point_def Trajectory_size_def)

subsection \<open>Cost\<close>

lemma fold_min_le: "fold (\<lambda>x m. min m (f x)) xs (a::real) \<le> a"
proof (induction xs arbitrary: a)
  case Nil
  show ?case by simp
next
  case (Cons x xs)
  have "fold (\<lambda>x m. min m (f x)) xs (min a (f x)) \<le> min a (f x)"
    by (rule Cons.IH)
  then show ?case by simp
qed

lemma fold_min_Min:
  "fold (\<lambda>x m. min m (f x)) xs (a::real) = Min (insert a (f ` set xs))"
proof (induction xs arbitrary: a)
  case Nil
  show ?case by simp
next
  case (Cons x xs)
  have "Min (insert (min a (f x)) (f ` set xs)) = Min (insert a (insert (f x) (f ` set xs)))"
  proof (cases "xs = []")
    case True
    then show ?thesis by simp
  next
    case False
    then have ne: "f ` set xs \<noteq> {}" by simp
    have fin: "finite (f ` set xs)" by simp
    have "Min (insert (min a (f x)) (f ` set xs)) = min (min a (f x)) (Min (f ` set xs))"
      by (rule Min_insert [OF fin ne])
    moreover have "Min (insert (f x) (f ` set xs)) = min (f x) (Min (f ` set xs))"
      by (rule Min_insert [OF fin ne])
    moreover have "Min (insert a (insert (f x) (f ` set xs))) =
        min a (Min (insert (f x) (f ` set xs)))"
      by (rule Min_insert) (simp_all add: fin)
    ultimately show ?thesis
      by (simp only: min.assoc)
  qed
  then show ?case
    by (simp add: Cons.IH)
qed

lemma fold_add_sum:
  "fold (\<lambda>x g. g + f x) xs (a::real) = a + sum_list (map f xs)"
  by (induction xs arbitrary: a) simp_all

lemma self_cost_range: "0 \<le> self_cost E obs po \<and> self_cost E obs po \<le> 1"
proof -
  have "min_dist E obs po \<le> 500"
    unfolding min_dist_def MAX_INFORMATIVE_DISTANCE_def by (rule fold_min_le)
  then show ?thesis
    by (simp add: self_cost_def MAX_INFORMATIVE_DISTANCE_def REDUNDANT_OBS_DIST_def)
qed

lemma sum_list_unit_bounds:
  "(\<And>x. 0 \<le> f x \<and> f x \<le> (1::real)) \<Longrightarrow>
   0 \<le> sum_list (map f xs) \<and> sum_list (map f xs) \<le> real (length xs)"
proof (induction xs)
  case Nil
  show ?case by simp
next
  case (Cons x xs)
  from Cons.prems [of x] Cons.IH [OF Cons.prems] show ?case by simp
qed

lemma cost_sum: "cost E p = sum_list (map (self_cost E (observations E p)) (possible_observations p))"
  by (simp add: cost_def fold_add_sum)

text \<open>
  Claim C3. The cost of a Plan is the sum, over its possible observations, of
  \<open>(max(min_dist, 0) - 0) / (500 - 0)\<close>, where \<open>min_dist\<close> is the least of 500 and the
  distances to the realized observations. Every term lies between 0 and 1, so the cost lies
  between 0 and the number of possible observations, and it is that number when the Plan
  has no realized observation.
\<close>

theorem cost_bounds:
  "0 \<le> cost E p \<and>
   cost E p \<le> real (length (possible_observations p)) \<and>
   cost E p = sum_list (map (self_cost E (observations E p)) (possible_observations p)) \<and>
   (\<forall>po. self_cost E (observations E p) po = (max (min_dist E (observations E p) po) 0 - 0) / (500 - 0) \<and>
         min_dist E (observations E p) po =
           Min (insert 500 ((\<lambda>obs. point_dist E (ptw_pt po) (pt obs)) ` set (observations E p))) \<and>
         0 \<le> self_cost E (observations E p) po \<and> self_cost E (observations E p) po \<le> 1) \<and>
   (observations E p = [] \<longrightarrow> cost E p = real (length (possible_observations p)))"
proof (intro conjI allI impI)
  have b: "0 \<le> sum_list (map (self_cost E (observations E p)) (possible_observations p)) \<and>
        sum_list (map (self_cost E (observations E p)) (possible_observations p))
          \<le> real (length (possible_observations p))"
    by (rule sum_list_unit_bounds) (rule self_cost_range)
  from b show "0 \<le> cost E p" by (simp add: cost_sum)
  from b show "cost E p \<le> real (length (possible_observations p))" by (simp add: cost_sum)
  show "cost E p = sum_list (map (self_cost E (observations E p)) (possible_observations p))"
    by (rule cost_sum)
next
  fix po
  show "self_cost E (observations E p) po = (max (min_dist E (observations E p) po) 0 - 0) / (500 - 0)"
    by (simp add: self_cost_def MAX_INFORMATIVE_DISTANCE_def REDUNDANT_OBS_DIST_def)
  show "min_dist E (observations E p) po =
      Min (insert 500 ((\<lambda>obs. point_dist E (ptw_pt po) (pt obs)) ` set (observations E p)))"
    unfolding min_dist_def MAX_INFORMATIVE_DISTANCE_def by (rule fold_min_Min)
  show "0 \<le> self_cost E (observations E p) po" and "self_cost E (observations E p) po \<le> 1"
    using self_cost_range [of E "observations E p" po] by simp_all
next
  assume "observations E p = []"
  then have "self_cost E (observations E p) po = 1" for po
    by (simp add: self_cost_def min_dist_def MAX_INFORMATIVE_DISTANCE_def REDUNDANT_OBS_DIST_def)
  then have "map (self_cost E (observations E p)) (possible_observations p) =
      map (\<lambda>po. 1) (possible_observations p)"
    by simp
  then show "cost E p = real (length (possible_observations p))"
    by (simp add: cost_sum sum_list_triv del: map_eq_conv)
qed

subsection \<open>Construction\<close>

lemma Plan_trajectories_eq:
  "Plan_trajectories E tw traj_confs trs =
     (if \<forall>c \<in> set traj_confs. tw_start tw \<le> start_time c \<and> start_time c \<le> tw_end tw
      then Inr (trs @ map (new_trajectory E) traj_confs)
      else Inl (AssertionFailed
        ''conf.start_time >= time_window.start && conf.start_time <= time_window.end''))"
  by (induction traj_confs arbitrary: trs) auto

lemma Plan_cells_y_step:
  "y < y_height (ignitions fd) \<Longrightarrow>
   Plan_cells_y E fd tw x y pos = Plan_cells_y E fd tw x (y + 1) (Plan_cell E fd tw x y pos)"
  by (subst Plan_cells_y.simps) simp

lemma Plan_cells_y_stop:
  "\<not> y < y_height (ignitions fd) \<Longrightarrow> Plan_cells_y E fd tw x y pos = pos"
  by (subst Plan_cells_y.simps) simp

lemma Plan_cells_x_step:
  "x < x_width (ignitions fd) \<Longrightarrow>
   Plan_cells_x E fd tw x pos = Plan_cells_x E fd tw (x + 1) (Plan_cells_y E fd tw x 0 pos)"
  by (subst Plan_cells_x.simps) simp

lemma Plan_cells_x_stop:
  "\<not> x < x_width (ignitions fd) \<Longrightarrow> Plan_cells_x E fd tw x pos = pos"
  by (subst Plan_cells_x.simps) simp

lemma Plan_cell_eq:
  "Plan_cell E fd tw x y pos =
     pos @ map (cell_entry E fd) (filter (cell_in_window fd tw) [\<lparr>cell_x = x, cell_y = y\<rparr>])"
  by (simp add: Plan_cell_def Let_def cell_entry_def cell_in_window_def)

lemma Plan_cells_y_eq:
  "Plan_cells_y E fd tw x y pos =
     pos @ map (cell_entry E fd) (filter (cell_in_window fd tw)
       (map (\<lambda>y. \<lparr>cell_x = x, cell_y = y\<rparr>) [y..<y_height (ignitions fd)]))"
proof (induction E fd tw x y pos rule: Plan_cells_y.induct)
  case (1 E fd tw x y pos)
  show ?case
  proof (cases "y < y_height (ignitions fd)")
    case True
    have split: "[y..<y_height (ignitions fd)] = [y] @ [y + 1..<y_height (ignitions fd)]"
      using True by (simp add: upt_conv_Cons)
    have "Plan_cells_y E fd tw x y pos =
        Plan_cell E fd tw x y pos @ map (cell_entry E fd) (filter (cell_in_window fd tw)
          (map (\<lambda>y. \<lparr>cell_x = x, cell_y = y\<rparr>) [y + 1..<y_height (ignitions fd)]))"
      unfolding Plan_cells_y_step [OF True] by (rule "1.IH" [OF True])
    then show ?thesis
      unfolding split map_append filter_append Plan_cell_eq by simp
  next
    case False
    then show ?thesis by (simp add: Plan_cells_y_stop)
  qed
qed

lemma Plan_cells_x_eq:
  "Plan_cells_x E fd tw x pos =
     pos @ map (cell_entry E fd) (filter (cell_in_window fd tw)
       (concat (map (\<lambda>x. map (\<lambda>y. \<lparr>cell_x = x, cell_y = y\<rparr>) [0..<y_height (ignitions fd)])
          [x..<x_width (ignitions fd)])))"
proof (induction E fd tw x pos rule: Plan_cells_x.induct)
  case (1 E fd tw x pos)
  show ?case
  proof (cases "x < x_width (ignitions fd)")
    case True
    have split: "[x..<x_width (ignitions fd)] = [x] @ [x + 1..<x_width (ignitions fd)]"
      using True by (simp add: upt_conv_Cons)
    have "Plan_cells_x E fd tw x pos =
        Plan_cells_y E fd tw x 0 pos @ map (cell_entry E fd) (filter (cell_in_window fd tw)
          (concat (map (\<lambda>x. map (\<lambda>y. \<lparr>cell_x = x, cell_y = y\<rparr>) [0..<y_height (ignitions fd)])
             [x + 1..<x_width (ignitions fd)])))"
      unfolding Plan_cells_x_step [OF True] by (rule "1.IH" [OF True])
    then show ?thesis
      unfolding split map_append concat_append filter_append Plan_cells_y_eq by simp
  next
    case False
    then show ?thesis by (simp add: Plan_cells_x_stop)
  qed
qed

lemma set_raster_cells: "set (raster_cells r) = {c. cell_x c < x_width r \<and> cell_y c < y_height r}"
proof (intro set_eqI iffI)
  fix c :: Cell assume "c \<in> set (raster_cells r)"
  then show "c \<in> {c. cell_x c < x_width r \<and> cell_y c < y_height r}"
    by (auto simp: raster_cells_def)
next
  fix c :: Cell assume "c \<in> {c. cell_x c < x_width r \<and> cell_y c < y_height r}"
  then have "cell_x c < x_width r" and "cell_y c < y_height r" by simp_all
  moreover have "c = \<lparr>cell_x = cell_x c, cell_y = cell_y c\<rparr>" by simp
  ultimately show "c \<in> set (raster_cells r)"
    unfolding raster_cells_def set_concat set_map by (force simp: image_iff)
qed

lemma Plan_new_Inr:
  assumes "Plan_new E traj_confs fd tw = Inr p"
  shows "p = \<lparr>time_window = tw, trajectories = map (new_trajectory E) traj_confs, fire = fd,
              possible_observations =
                map (cell_entry E fd) (filter (cell_in_window fd tw) (raster_cells (ignitions fd)))\<rparr>"
    and "\<forall>c \<in> set traj_confs. tw_start tw \<le> start_time c \<and> start_time c \<le> tw_end tw"
  using assms
  by (auto simp: Plan_new_def Plan_trajectories_eq Plan_cells_x_eq raster_cells_def
      split: if_splits)

text \<open>
  Claim C6. In a Plan built from trajectory configurations, fire data and a time window, the
  possible observations are, in the order of the construction loops, the cells of the
  ignition raster whose ignition time lies in the time window (bounds included), each as its
  point with the window from its ignition time to its traversal end; a cell is among them
  exactly when it lies in the raster and its ignition time lies in the time window.
\<close>

theorem possible_observations_construction:
  "Plan_new E traj_confs fd tw = Inr p \<Longrightarrow>
   possible_observations p =
     map (\<lambda>c. \<lparr>ptw_pt = as_point E (ignitions fd) c,
                ptw_tw = \<lparr>tw_start = cell_value (ignitions fd) c,
                          tw_end = cell_value (traversal_end fd) c\<rparr>\<rparr>)
       (filter (\<lambda>c. tw_start tw \<le> cell_value (ignitions fd) c \<and>
                    cell_value (ignitions fd) c \<le> tw_end tw)
          (raster_cells (ignitions fd))) \<and>
   set (filter (\<lambda>c. tw_start tw \<le> cell_value (ignitions fd) c \<and>
                    cell_value (ignitions fd) c \<le> tw_end tw)
          (raster_cells (ignitions fd))) =
     {c. cell_x c < x_width (ignitions fd) \<and> cell_y c < y_height (ignitions fd) \<and>
         tw_start tw \<le> cell_value (ignitions fd) c \<and> cell_value (ignitions fd) c \<le> tw_end tw}"
proof -
  assume "Plan_new E traj_confs fd tw = Inr p"
  from Plan_new_Inr(1) [OF this]
  have "possible_observations p =
      map (cell_entry E fd) (filter (cell_in_window fd tw) (raster_cells (ignitions fd)))"
    by simp
  moreover have "cell_entry E fd = (\<lambda>c. \<lparr>ptw_pt = as_point E (ignitions fd) c,
                ptw_tw = \<lparr>tw_start = cell_value (ignitions fd) c,
                          tw_end = cell_value (traversal_end fd) c\<rparr>\<rparr>)"
    by (rule ext) (simp add: cell_entry_def)
  moreover have "cell_in_window fd tw = (\<lambda>c. tw_start tw \<le> cell_value (ignitions fd) c \<and>
                    cell_value (ignitions fd) c \<le> tw_end tw)"
    by (rule ext) (simp add: cell_in_window_def)
  ultimately show ?thesis
    by (auto simp: set_raster_cells)
qed

text \<open>
  Claim C9. The constructor yields a Plan exactly when the start time of every trajectory
  configuration lies in the time window of the Plan, bounds included; otherwise it fails the
  assertion of line 23 and there is no Plan.
\<close>

theorem construction_precondition:
  "((\<exists>p. Plan_new E traj_confs fd tw = Inr p) \<longleftrightarrow>
      (\<forall>c \<in> set traj_confs. tw_start tw \<le> start_time c \<and> start_time c \<le> tw_end tw)) \<and>
   ((\<exists>c \<in> set traj_confs. \<not> (tw_start tw \<le> start_time c \<and> start_time c \<le> tw_end tw)) \<longrightarrow>
      Plan_new E traj_confs fd tw = Inl (AssertionFailed
        ''conf.start_time >= time_window.start && conf.start_time <= time_window.end''))"
  by (auto simp: Plan_new_def Plan_trajectories_eq)

subsection \<open>Observations, cost and construction in the small world\<close>

lemma line_observations:
  "observations line_world (scored_plan [hover 0 0, hover 100 0]) =
     [\<lparr>pt = \<lparr>pt_x = 0, pt_y = 0\<rparr>, time = 0\<rparr>]"
  by (simp add: observations_def observations_loop_step observations_loop_stop
      observations_body_def scored_plan_def line_traj_def line_conf_def line_world_def
      line_fire_def hover_def Trajectory_size_def axis_dist_def Waypoint_as_point_def)

lemma line_observations_none: "observations line_world (scored_plan []) = []"
  by (simp add: observations_def observations_loop_stop scored_plan_def line_traj_def
      Trajectory_size_def)

theorem observations_membership_witness:
  "observations line_world (scored_plan [hover 0 0, hover 100 0]) =
     [\<lparr>pt = \<lparr>pt_x = 0, pt_y = 0\<rparr>, time = 0\<rparr>] \<and>
   length (traj (trajectories (scored_plan [hover 0 0, hover 100 0]) ! 0)) = 2"
proof -
  have "observations line_world (scored_plan [hover 0 0, hover 100 0]) =
      [\<lparr>pt = \<lparr>pt_x = 0, pt_y = 0\<rparr>, time = 0\<rparr>]"
    by (subst observations_membership)
      (simp add: scored_plan_def line_traj_def line_conf_def line_world_def line_fire_def
        hover_def axis_dist_def Waypoint_as_point_def upt_conv_Cons)
  then show ?thesis
    by (simp add: scored_plan_def line_traj_def)
qed

theorem cost_bounds_witness:
  "observations line_world (scored_plan []) = [] \<and>
   cost line_world (scored_plan []) = 3 \<and>
   cost line_world (scored_plan [hover 0 0, hover 100 0]) = 3 / 2"
proof -
  have none: "observations line_world (scored_plan []) = []"
    by (rule line_observations_none)
  from cost_bounds [of line_world "scored_plan []"] none
  have "cost line_world (scored_plan []) = real (length (possible_observations (scored_plan [])))"
    by blast
  then have three: "cost line_world (scored_plan []) = 3"
    by (simp add: scored_plan_def)
  have "cost line_world (scored_plan [hover 0 0, hover 100 0]) = 3 / 2"
    unfolding cost_def line_observations
    by (simp add: scored_plan_def self_cost_def min_dist_def MAX_INFORMATIVE_DISTANCE_def
        REDUNDANT_OBS_DIST_def line_world_def axis_dist_def)
  with none three show ?thesis by simp
qed

lemma line_Plan_new:
  "Plan_new line_world [line_conf 1] (line_fire 3) \<lparr>tw_start = 0, tw_end = 3\<rparr> =
     Inr \<lparr>time_window = \<lparr>tw_start = 0, tw_end = 3\<rparr>,
          trajectories = [\<lparr>conf = line_conf 1, traj = [], frozen_before = None\<rparr>],
          fire = line_fire 3,
          possible_observations =
            Plan_cells_x line_world (line_fire 3) \<lparr>tw_start = 0, tw_end = 3\<rparr> 0 []\<rparr>"
  by (simp add: Plan_new_def line_conf_def line_world_def)

theorem possible_observations_construction_witness:
  "\<exists>p. Plan_new line_world [line_conf 1] (line_fire 3) \<lparr>tw_start = 0, tw_end = 3\<rparr> = Inr p \<and>
       possible_observations p =
         [\<lparr>ptw_pt = \<lparr>pt_x = 0, pt_y = 0\<rparr>, ptw_tw = \<lparr>tw_start = 0, tw_end = 10\<rparr>\<rparr>,
          \<lparr>ptw_pt = \<lparr>pt_x = 1, pt_y = 0\<rparr>, ptw_tw = \<lparr>tw_start = 2, tw_end = 12\<rparr>\<rparr>]"
proof -
  from possible_observations_construction [OF line_Plan_new]
  have "possible_observations
      \<lparr>time_window = \<lparr>tw_start = 0, tw_end = 3\<rparr>,
       trajectories = [\<lparr>conf = line_conf 1, traj = [], frozen_before = None\<rparr>],
       fire = line_fire 3,
       possible_observations =
         Plan_cells_x line_world (line_fire 3) \<lparr>tw_start = 0, tw_end = 3\<rparr> 0 []\<rparr> =
      [\<lparr>ptw_pt = \<lparr>pt_x = 0, pt_y = 0\<rparr>, ptw_tw = \<lparr>tw_start = 0, tw_end = 10\<rparr>\<rparr>,
       \<lparr>ptw_pt = \<lparr>pt_x = 1, pt_y = 0\<rparr>, ptw_tw = \<lparr>tw_start = 2, tw_end = 12\<rparr>\<rparr>]"
    by (simp add: raster_cells_def line_fire_def line_world_def upt_conv_Cons)
  with line_Plan_new show ?thesis by blast
qed

theorem construction_precondition_witness:
  "(\<exists>p. Plan_new line_world [line_conf 1] (line_fire 3) \<lparr>tw_start = 0, tw_end = 3\<rparr> = Inr p) \<and>
   Plan_new line_world [line_conf 1, line_conf 5] (line_fire 3) \<lparr>tw_start = 0, tw_end = 3\<rparr> =
     Inl (AssertionFailed
       ''conf.start_time >= time_window.start && conf.start_time <= time_window.end'')"
proof -
  let ?tw = "\<lparr>tw_start = 0, tw_end = 3\<rparr>"
  have "\<forall>c \<in> set [line_conf 1]. tw_start ?tw \<le> start_time c \<and> start_time c \<le> tw_end ?tw"
    by (simp add: line_conf_def)
  with construction_precondition [of line_world "[line_conf 1]" "line_fire 3" ?tw]
  have ok: "\<exists>p. Plan_new line_world [line_conf 1] (line_fire 3) ?tw = Inr p"
    by blast
  have "\<exists>c \<in> set [line_conf 1, line_conf 5].
      \<not> (tw_start ?tw \<le> start_time c \<and> start_time c \<le> tw_end ?tw)"
    by (simp add: line_conf_def)
  with construction_precondition [of line_world "[line_conf 1, line_conf 5]" "line_fire 3" ?tw]
  have "Plan_new line_world [line_conf 1, line_conf 5] (line_fire 3) ?tw =
      Inl (AssertionFailed
        ''conf.start_time >= time_window.start && conf.start_time <= time_window.end'')"
    by blast
  with ok show ?thesis by simp
qed

section \<open>Properties of the configuration checks\<close>





subsection \<open>Two documents\<close>




end
